theory Spec2Isabelle
  imports Main
begin

section \<open>The submitter of slidechain (submit.go)\<close>

text \<open>
  The file holds one type, \<^verbatim>\<open>submitter\<close>, and one method, \<^verbatim>\<open>ServeHTTP\<close>, which
  decodes a transaction, adds it to the block being built and, when it finds no block
  being built, starts one and schedules with \<^verbatim>\<open>time.AfterFunc\<close> the function that
  builds, commits and publishes the block.

  The method names two block-builder variables. \<^verbatim>\<open>s.bb\<close> is the field of the
  receiver: it is tested at line 63 and assigned at line 64. The unqualified \<^verbatim>\<open>bb\<close>
  of lines 76, 86, 100 and 104 is not a field (Go has no implicit receiver): it is a
  variable of package scope, declared outside this file. In the same way the handler
  locks the field \<^verbatim>\<open>s.bbmu\<close> (line 60) and the scheduled function locks the
  package-level \<^verbatim>\<open>bbmu\<close> (line 83). The model keeps the two references and the two
  mutexes apart, as the code does; the value of the package-level \<^verbatim>\<open>bb\<close> at the
  start is a parameter (a component of the initial state).
\<close>

subsection \<open>Data\<close>

text \<open>A transaction (\<^verbatim>\<open>bc.Tx\<close>), identified by its ID.\<close>

datatype tx = Tx (tx_id: nat)

text \<open>
  An unsigned block as \<^verbatim>\<open>Build\<close> returns it: the transactions in order and the
  timestamp given to \<^verbatim>\<open>Start\<close>, in milliseconds.
\<close>

record block =
  transactions :: "tx list"
  timestamp_ms :: nat

text \<open>
  A \<^verbatim>\<open>protocol.BlockBuilder\<close>. The type belongs to the txvm library; the model
  keeps what the handler relies on: whether \<^verbatim>\<open>Start\<close> has succeeded on it, the
  timestamp it was started with, and the transactions added so far, in order.
\<close>

record BlockBuilder =
  started :: bool
  timestampMS :: nat
  txs :: "tx list"

datatype mutex = S_bbmu | Pkg_bbmu

datatype lock_op = Lock mutex | Unlock mutex

text \<open>
  How the process stopped: \<^verbatim>\<open>log.Fatal\<close> with its message, or a panic that nothing
  recovers (a nil dereference in the goroutine of the timer).
\<close>

datatype halt = Fatal string | Panic

text \<open>
  What the client receives: a status code, or nothing when the handler panics
  (net/http recovers the panic and drops the connection).
\<close>

datatype reply = Status nat | No_reply

text \<open>
  The state the handler and the scheduled function work on. Builders live in a store
  addressed by their index, so that two references to one builder can be told from
  references to two builders.
  \<^item> \<open>s_bb\<close>: the field \<^verbatim>\<open>s.bb\<close>; \<open>bb\<close>: the package-level \<^verbatim>\<open>bb\<close>; \<open>None\<close> is nil.
  \<^item> \<open>builders\<close>: the builders allocated so far.
  \<^item> \<open>header_set\<close>: \<^verbatim>\<open>chain.State().Header != nil\<close>.
  \<^item> \<open>committed\<close>: the blocks \<^verbatim>\<open>chain.CommitAppliedBlock\<close> has accepted.
  \<^item> \<open>written\<close>: the blocks written to \<^verbatim>\<open>s.w\<close>.
  \<^item> \<open>timers\<close>: the pending timers of \<^verbatim>\<open>time.AfterFunc\<close>, each with its duration.
  \<^item> \<open>halted\<close>: set once the process has stopped.
  \<^item> \<open>trace\<close>: the mutex operations performed, in order.
\<close>

record state =
  s_bb :: "nat option"
  bb :: "nat option"
  builders :: "BlockBuilder list"
  header_set :: bool
  committed :: "block list"
  written :: "block list"
  timers :: "nat list"
  halted :: "halt option"
  trace :: "lock_op list"

text \<open>
  One request, given by what each call to the outside returns while it is handled:
  \<^verbatim>\<open>ioutil.ReadAll\<close>, \<^verbatim>\<open>proto.Unmarshal\<close>, \<^verbatim>\<open>bc.NewTx\<close> (\<open>None\<close> when it fails),
  \<^verbatim>\<open>time.Now\<close> (in milliseconds), \<^verbatim>\<open>ApplyBlockHeader\<close>, \<^verbatim>\<open>Start\<close> and \<^verbatim>\<open>AddTx\<close>.
  A result is read only when the handler reaches the call.
\<close>

record request =
  body_ok :: bool
  unmarshal_ok :: bool
  new_tx :: "tx option"
  now :: nat
  apply_header_ok :: bool
  start_ok :: bool
  add_tx_ok :: bool

text \<open>What \<^verbatim>\<open>Build\<close> and \<^verbatim>\<open>CommitAppliedBlock\<close> return when the timer fires.\<close>

record fire =
  build_ok :: bool
  commit_ok :: bool

subsection \<open>The block builder\<close>

text \<open>\<^verbatim>\<open>var blockInterval = 5 * time.Second\<close>, in milliseconds.\<close>

definition blockInterval :: nat where
  "blockInterval = 5000"

definition NewBlockBuilder :: BlockBuilder where
  "NewBlockBuilder = \<lparr>started = False, timestampMS = 0, txs = []\<rparr>"

text \<open>
  The successful cases of the library's methods: \<^verbatim>\<open>Start\<close> opens the session with
  its close time and no transaction, \<^verbatim>\<open>AddTx\<close> appends, \<^verbatim>\<open>Build\<close> returns the
  transactions added, in order. A call that returns an error leaves the builder as it was.
\<close>

definition Start :: "BlockBuilder \<Rightarrow> nat \<Rightarrow> BlockBuilder" where
  "Start b ts = b\<lparr>started := True, timestampMS := ts, txs := []\<rparr>"

definition AddTx :: "BlockBuilder \<Rightarrow> tx \<Rightarrow> BlockBuilder" where
  "AddTx b t = b\<lparr>txs := txs b @ [t]\<rparr>"

definition Build :: "BlockBuilder \<Rightarrow> block" where
  "Build b = \<lparr>transactions = txs b, timestamp_ms = timestampMS b\<rparr>"

text \<open>
  Following a builder reference: the address and the builder, or \<open>None\<close> for nil.
  A method of the builder called through nil dereferences it and panics.
\<close>

definition deref :: "state \<Rightarrow> nat option \<Rightarrow> (nat \<times> BlockBuilder) option" where
  "deref st p =
     (case p of
        None \<Rightarrow> None
      | Some a \<Rightarrow> if a < length (builders st) then Some (a, builders st ! a) else None)"

subsection \<open>ServeHTTP\<close>

text \<open>
  Lines 63 to 102, entered when \<^verbatim>\<open>s.bb == nil\<close>. The result is the new state and
  the reply of an early return, if any.
  \<^item> line 64 stores a fresh builder in \<^verbatim>\<open>s.bb\<close>;
  \<^item> lines 67 to 74 apply the initial block's header when the chain has none;
  \<^item> line 76 calls \<^verbatim>\<open>Start\<close> through the package-level \<^verbatim>\<open>bb\<close>;
  \<^item> line 82 arms the timer.
\<close>

definition open_block :: "state \<Rightarrow> request \<Rightarrow> state \<times> reply option" where
  "open_block st r =
     (let st1 = st\<lparr>builders := builders st @ [NewBlockBuilder],
                   s_bb := Some (length (builders st))\<rparr>;
          nextBlockTime = now r + blockInterval
      in if \<not> header_set st1 \<and> \<not> apply_header_ok r then (st1, Some (Status 500))
         else
           (let st2 = st1\<lparr>header_set := True\<rparr>
            in case deref st2 (bb st2) of
                 None \<Rightarrow> (st2, Some No_reply)
               | Some (a, b) \<Rightarrow>
                   if \<not> start_ok r then (st2, Some (Status 500))
                   else (st2\<lparr>builders := (builders st2)[a := Start b nextBlockTime],
                             timers := timers st2 @ [blockInterval]\<rparr>, None)))"

text \<open>Lines 104 to 110: \<^verbatim>\<open>AddTx\<close> through the package-level \<^verbatim>\<open>bb\<close>, then the reply.\<close>

definition add_to_block :: "state \<Rightarrow> request \<Rightarrow> tx \<Rightarrow> state \<times> reply" where
  "add_to_block st r t =
     (case deref st (bb st) of
        None \<Rightarrow> (st, No_reply)
      | Some (a, b) \<Rightarrow>
          if \<not> add_tx_ok r then (st, Status 400)
          else (st\<lparr>builders := (builders st)[a := AddTx b t]\<rparr>, Status 204))"

text \<open>Lines 63 to 110, run while \<^verbatim>\<open>s.bbmu\<close> is held.\<close>

definition locked_section :: "state \<Rightarrow> request \<Rightarrow> tx \<Rightarrow> state \<times> reply" where
  "locked_section st r t =
     (if s_bb st = None then
        (case open_block st r of
           (st', Some rep) \<Rightarrow> (st', rep)
         | (st', None) \<Rightarrow> add_to_block st' r t)
      else add_to_block st r t)"

text \<open>
  The whole method. Lines 41 to 58 decode the request and return before the mutex is
  taken; line 60 locks \<^verbatim>\<open>s.bbmu\<close> and the deferred call of line 61 unlocks it on
  every way out, a panic included.
\<close>

definition ServeHTTP :: "state \<Rightarrow> request \<Rightarrow> state \<times> reply" where
  "ServeHTTP st r =
     (if \<not> body_ok r then (st, Status 500)
      else if \<not> unmarshal_ok r then (st, Status 400)
      else case new_tx r of
             None \<Rightarrow> (st, Status 400)
           | Some t \<Rightarrow>
               (case locked_section (st\<lparr>trace := trace st @ [Lock S_bbmu]\<rparr>) r t of
                  (st', rep) \<Rightarrow> (st'\<lparr>trace := trace st' @ [Unlock S_bbmu]\<rparr>, rep)))"

subsection \<open>The function scheduled by time.AfterFunc\<close>

text \<open>
  Lines 83 to 100. It locks the package-level \<^verbatim>\<open>bbmu\<close>, builds through the
  package-level \<^verbatim>\<open>bb\<close>, commits, writes the block to \<^verbatim>\<open>s.w\<close> and sets the
  package-level \<^verbatim>\<open>bb\<close> to nil. \<^verbatim>\<open>log.Fatal\<close> exits the process without running
  the deferred unlock; a panic runs it and then stops the process.
\<close>

definition timer_func :: "state \<Rightarrow> fire \<Rightarrow> state" where
  "timer_func st f =
     (let st0 = st\<lparr>trace := trace st @ [Lock Pkg_bbmu]\<rparr>
      in case deref st0 (bb st0) of
           None \<Rightarrow> st0\<lparr>halted := Some Panic, trace := trace st0 @ [Unlock Pkg_bbmu]\<rparr>
         | Some (a, b) \<Rightarrow>
             if \<not> build_ok f then st0\<lparr>halted := Some (Fatal ''building new block'')\<rparr>
             else if \<not> commit_ok f
               then st0\<lparr>halted := Some (Fatal ''committing new block'')\<rparr>
             else st0\<lparr>committed := committed st0 @ [Build b],
                       written := written st0 @ [Build b],
                       bb := None,
                       trace := trace st0 @ [Unlock Pkg_bbmu]\<rparr>)"

text \<open>
  The scheduled function in two parts. \<open>timer_seal\<close> is lines 83 to 98: it locks the
  package-level \<^verbatim>\<open>bbmu\<close>, builds, commits and writes the block, and tells whether
  line 100 is reached. \<open>timer_clear\<close> is line 100 and the deferred unlock.
\<close>

definition timer_seal :: "state \<Rightarrow> fire \<Rightarrow> state \<times> bool" where
  "timer_seal st f =
     (let st0 = st\<lparr>trace := trace st @ [Lock Pkg_bbmu]\<rparr>
      in case deref st0 (bb st0) of
           None \<Rightarrow> (st0\<lparr>halted := Some Panic, trace := trace st0 @ [Unlock Pkg_bbmu]\<rparr>, False)
         | Some (a, b) \<Rightarrow>
             if \<not> build_ok f
               then (st0\<lparr>halted := Some (Fatal ''building new block'')\<rparr>, False)
             else if \<not> commit_ok f
               then (st0\<lparr>halted := Some (Fatal ''committing new block'')\<rparr>, False)
             else (st0\<lparr>committed := committed st0 @ [Build b],
                        written := written st0 @ [Build b]\<rparr>, True))"

definition timer_clear :: "state \<Rightarrow> state" where
  "timer_clear st = st\<lparr>bb := None, trace := trace st @ [Unlock Pkg_bbmu]\<rparr>"

subsection \<open>Runs\<close>

text \<open>
  The serial schedules: requests are handled and pending timers fired one at a time, a
  run taking each request and each firing as one step. A timer is one-shot: firing
  removes it. Nothing happens once the process has stopped.

  Requests exclude one another through \<^verbatim>\<open>s.bbmu\<close>. The scheduled function holds the
  package-level \<^verbatim>\<open>bbmu\<close>, which no handler takes, so the code also allows schedules
  in which a handler runs while the scheduled function is under way. A run does not
  contain them; \<open>timer_seal\<close> and \<open>timer_clear\<close> give the two parts of the scheduled
  function between which a handler can run.
\<close>

datatype event = Request request | Fire fire

definition step :: "state \<Rightarrow> event \<Rightarrow> state" where
  "step st ev =
     (if halted st \<noteq> None then st
      else case ev of
             Request r \<Rightarrow> fst (ServeHTTP st r)
           | Fire f \<Rightarrow>
               (case timers st of
                  [] \<Rightarrow> st
                | d # ds \<Rightarrow> timer_func (st\<lparr>timers := ds\<rparr>) f))"

definition run :: "state \<Rightarrow> event list \<Rightarrow> state" where
  "run st evs = foldl step st evs"

text \<open>The transactions of the requests that were answered 204, in order.\<close>

fun admitted :: "request list \<Rightarrow> reply list \<Rightarrow> tx list" where
  "admitted (r # rs) (rep # reps) =
     (case new_tx r of
        Some t \<Rightarrow> if rep = Status 204 then t # admitted rs reps else admitted rs reps
      | None \<Rightarrow> admitted rs reps)"
| "admitted _ _ = []"

subsection \<open>Concrete states and requests\<close>

text \<open>The process as it starts when every reference is nil and nothing is committed.\<close>

definition nil_state :: state where
  "nil_state = \<lparr>s_bb = None, bb = None, builders = [], header_set = False,
     committed = [], written = [], timers = [], halted = None, trace = []\<rparr>"

text \<open>The same, with the package-level \<^verbatim>\<open>bb\<close> referring to a builder.\<close>

definition preset_state :: state where
  "preset_state = nil_state\<lparr>bb := Some 0, builders := [NewBlockBuilder]\<rparr>"

text \<open>A request carrying transaction \<open>n\<close> at time \<open>t\<close>, every call succeeding.\<close>

definition good_request :: "nat \<Rightarrow> nat \<Rightarrow> request" where
  "good_request n t = \<lparr>body_ok = True, unmarshal_ok = True, new_tx = Some (Tx n), now = t,
     apply_header_ok = True, start_ok = True, add_tx_ok = True\<rparr>"

definition good_fire :: fire where
  "good_fire = \<lparr>build_ok = True, commit_ok = True\<rparr>"

subsection \<open>Valid references\<close>

text \<open>
  A Go pointer is nil or refers to an allocated object: each of the two references
  is \<open>None\<close> or an address of the store.
\<close>

definition refs_valid :: "state \<Rightarrow> bool" where
  "refs_valid st =
     ((case s_bb st of None \<Rightarrow> True | Some a \<Rightarrow> a < length (builders st))
      \<and> (case bb st of None \<Rightarrow> True | Some a \<Rightarrow> a < length (builders st)))"

text \<open>
  Three states that requests lead to: \<open>open_state\<close> is \<open>preset_state\<close> after
  \<open>good_request 1 0\<close>; \<open>failed_init_state\<close> is \<open>nil_state\<close> after a first request
  during which \<^verbatim>\<open>ApplyBlockHeader\<close> failed; \<open>failed_start_state\<close> is \<open>preset_state\<close>
  after a first request during which \<^verbatim>\<open>Start\<close> failed. And \<open>sealing_state\<close> is
  \<open>open_state\<close> once its timer has fired and the scheduled function has reached line 98:
  the block is committed and written, line 100 has not run yet.
\<close>

definition open_state :: state where
  "open_state = \<lparr>s_bb = Some 1, bb = Some 0,
     builders = [\<lparr>started = True, timestampMS = 5000, txs = [Tx 1]\<rparr>, NewBlockBuilder],
     header_set = True, committed = [], written = [], timers = [5000],
     halted = None, trace = [Lock S_bbmu, Unlock S_bbmu]\<rparr>"

definition failed_init_state :: state where
  "failed_init_state = nil_state\<lparr>s_bb := Some 0, builders := [NewBlockBuilder],
     trace := [Lock S_bbmu, Unlock S_bbmu]\<rparr>"

definition failed_start_state :: state where
  "failed_start_state = preset_state\<lparr>s_bb := Some 1,
     builders := [NewBlockBuilder, NewBlockBuilder], header_set := True,
     trace := [Lock S_bbmu, Unlock S_bbmu]\<rparr>"


section \<open>Facts about the handler and the scheduled function\<close>

lemma deref_trace [simp]: "deref (st\<lparr>trace := tr\<rparr>) p = deref st p"
  by (simp add: deref_def split: option.splits)

lemma deref_timers [simp]: "deref (st\<lparr>timers := ts\<rparr>) p = deref st p"
  by (simp add: deref_def split: option.splits)

lemma deref_SomeD:
  "deref st p = Some (a, b) \<Longrightarrow> p = Some a \<and> a < length (builders st) \<and> builders st ! a = b"
  by (auto simp add: deref_def split: option.splits if_splits)

lemma deref_update:
  "deref st p = Some (a, b) \<Longrightarrow> deref (st\<lparr>builders := (builders st)[a := b']\<rparr>) p = Some (a, b')"
  by (auto simp add: deref_def split: option.splits if_splits)

text \<open>Lines 104 to 110 on a live builder.\<close>

lemma add_to_block_live:
  assumes "deref st (bb st) = Some (a, b)"
  shows "add_to_block st r t =
           (if add_tx_ok r then (st\<lparr>builders := (builders st)[a := AddTx b t]\<rparr>, Status 204)
            else (st, Status 400))"
  using assms by (simp add: add_to_block_def)

lemma add_to_block_nil:
  assumes "deref st (bb st) = None"
  shows "add_to_block st r t = (st, No_reply)"
  using assms by (simp add: add_to_block_def)

text \<open>A request that reaches line 60 while \<^verbatim>\<open>s.bb\<close> is set.\<close>

lemma ServeHTTP_set:
  assumes "body_ok r" "unmarshal_ok r" "new_tx r = Some t" "s_bb st \<noteq> None"
  shows "ServeHTTP st r =
           (case add_to_block (st\<lparr>trace := trace st @ [Lock S_bbmu]\<rparr>) r t of
              (st', rep) \<Rightarrow> (st'\<lparr>trace := trace st' @ [Unlock S_bbmu]\<rparr>, rep))"
  using assms by (auto simp add: ServeHTTP_def locked_section_def)

lemma add_to_block_frame:
  assumes "add_to_block st r t = (st', rep)"
  shows "s_bb st' = s_bb st \<and> bb st' = bb st \<and> timers st' = timers st
       \<and> header_set st' = header_set st \<and> committed st' = committed st
       \<and> written st' = written st \<and> halted st' = halted st
       \<and> length (builders st') = length (builders st)"
  using assms by (auto simp add: add_to_block_def split: option.splits if_splits)

lemma ServeHTTP_set_frame:
  assumes "s_bb st \<noteq> None" "ServeHTTP st r = (st', rep)"
  shows "s_bb st' = s_bb st \<and> bb st' = bb st \<and> timers st' = timers st
       \<and> header_set st' = header_set st \<and> committed st' = committed st
       \<and> written st' = written st \<and> halted st' = halted st
       \<and> length (builders st') = length (builders st)"
proof (cases "body_ok r \<and> unmarshal_ok r \<and> new_tx r \<noteq> None")
  case False
  with assms(2) show ?thesis
    by (auto simp add: ServeHTTP_def split: if_splits option.splits)
next
  case True
  then obtain t where t: "new_tx r = Some t" by auto
  obtain st1 rep1 where a: "add_to_block (st\<lparr>trace := trace st @ [Lock S_bbmu]\<rparr>) r t = (st1, rep1)"
    by (cases "add_to_block (st\<lparr>trace := trace st @ [Lock S_bbmu]\<rparr>) r t")
  from True t assms a have "st' = st1\<lparr>trace := trace st1 @ [Unlock S_bbmu]\<rparr>"
    by (simp add: ServeHTTP_set)
  with add_to_block_frame [OF a] show ?thesis by simp
qed

lemma ServeHTTP_halted:
  assumes "ServeHTTP st r = (st', rep)"
  shows "halted st' = halted st \<and> committed st' = committed st \<and> written st' = written st"
  using assms
  by (auto simp add: ServeHTTP_def locked_section_def open_block_def add_to_block_def Let_def
      split: if_splits option.splits prod.splits)


lemma run_halted: "halted st \<noteq> None \<Longrightarrow> run st evs = st"
  unfolding run_def by (induction evs) (simp_all add: step_def)

lemma run_Cons: "run st (ev # evs) = run (step st ev) evs"
  by (simp add: run_def)

lemma timer_func_cases:
  "timer_func st f =
     (case deref st (bb st) of
        None \<Rightarrow> st\<lparr>halted := Some Panic, trace := trace st @ [Lock Pkg_bbmu, Unlock Pkg_bbmu]\<rparr>
      | Some (a, b) \<Rightarrow>
          if \<not> build_ok f
            then st\<lparr>halted := Some (Fatal ''building new block''),
                    trace := trace st @ [Lock Pkg_bbmu]\<rparr>
          else if \<not> commit_ok f
            then st\<lparr>halted := Some (Fatal ''committing new block''),
                    trace := trace st @ [Lock Pkg_bbmu]\<rparr>
          else st\<lparr>committed := committed st @ [Build b], written := written st @ [Build b],
                  bb := None, trace := trace st @ [Lock Pkg_bbmu, Unlock Pkg_bbmu]\<rparr>)"
  by (simp add: timer_func_def Let_def split: option.splits)

lemma timer_func_subset:
  "set (written st) \<subseteq> set (committed st) \<Longrightarrow>
   set (written (timer_func st f)) \<subseteq> set (committed (timer_func st f))"
  by (auto simp add: timer_func_cases split: option.splits)

lemma step_subset:
  "set (written st) \<subseteq> set (committed st) \<Longrightarrow>
   set (written (step st ev)) \<subseteq> set (committed (step st ev))"
proof (cases ev)
  case (Request r)
  assume a: "set (written st) \<subseteq> set (committed st)"
  obtain st' rep where "ServeHTTP st r = (st', rep)" by (cases "ServeHTTP st r")
  with ServeHTTP_halted [OF this] a Request show ?thesis by (simp add: step_def)
next
  case (Fire f)
  assume a: "set (written st) \<subseteq> set (committed st)"
  show ?thesis
  proof (cases "timers st")
    case Nil
    with a Fire show ?thesis by (simp add: step_def)
  next
    case (Cons d ds)
    from a have "set (written (st\<lparr>timers := ds\<rparr>)) \<subseteq> set (committed (st\<lparr>timers := ds\<rparr>))"
      by simp
    from timer_func_subset [OF this] a Fire Cons show ?thesis by (simp add: step_def)
  qed
qed

lemma run_subset:
  "set (written st) \<subseteq> set (committed st) \<Longrightarrow>
   set (written (run st evs)) \<subseteq> set (committed (run st evs))"
proof (induction evs arbitrary: st)
  case Nil
  then show ?case by (simp add: run_def)
next
  case (Cons ev evs)
  from Cons.IH [OF step_subset [OF Cons.prems]] show ?case by (simp add: run_Cons)
qed

text \<open>What the first request of a block leaves when its timer was armed.\<close>

lemma open_block_armed:
  assumes "refs_valid st" and "open_block st r = (st', None)"
  shows "\<exists>a b. deref st (bb st) = Some (a, b)
           \<and> st' = st\<lparr>builders := (builders st @ [NewBlockBuilder])[a := Start b (now r + blockInterval)],
                       s_bb := Some (length (builders st)), header_set := True,
                       timers := timers st @ [blockInterval]\<rparr>"
  using assms
  by (auto simp add: open_block_def Let_def deref_def nth_append refs_valid_def
      split: if_splits option.splits prod.splits)

lemma open_block_early:
  assumes "open_block st r = (st', Some rep)"
  shows "timers st' = timers st \<and> written st' = written st \<and> rep \<noteq> Status 204
       \<and> rep \<noteq> Status 400"
  using assms
  by (auto simp add: open_block_def Let_def split: if_splits option.splits prod.splits)

lemma ServeHTTP_opening:
  assumes "refs_valid st" and "s_bb st = None" and "ServeHTTP st r = (st', rep)"
      and "timers st' \<noteq> timers st"
  shows "\<exists>a b. deref st' (bb st') = Some (a, b) \<and> txs b = admitted [r] [rep]
           \<and> timestampMS b = now r + blockInterval \<and> started b
           \<and> s_bb st' \<noteq> None \<and> written st' = written st \<and> committed st' = committed st
           \<and> timers st' = timers st @ [blockInterval] \<and> halted st' = halted st"
proof -
  from assms obtain t where dec: "body_ok r" "unmarshal_ok r" "new_tx r = Some t"
    by (auto simp add: ServeHTTP_def split: if_splits option.splits)
  let ?st0 = "st\<lparr>trace := trace st @ [Lock S_bbmu]\<rparr>"
  obtain st1 early where ob: "open_block ?st0 r = (st1, early)"
    by (cases "open_block ?st0 r")
  show ?thesis
  proof (cases early)
    case (Some rep1)
    with ob dec assms(2,3) open_block_early [of ?st0 r st1 rep1] assms(4)
    show ?thesis
      by (auto simp add: ServeHTTP_def locked_section_def)
  next
    case None
    from assms(1) have "refs_valid ?st0" by (simp add: refs_valid_def split: option.splits)
    with None ob open_block_armed [of ?st0 r st1] obtain a b where
      d: "deref ?st0 (bb ?st0) = Some (a, b)" and
      st1: "st1 = ?st0\<lparr>builders := (builders ?st0 @ [NewBlockBuilder])[a := Start b (now r + blockInterval)],
                       s_bb := Some (length (builders ?st0)), header_set := True,
                       timers := timers ?st0 @ [blockInterval]\<rparr>"
      by blast
    from d have a: "a < length (builders st)" "bb st = Some a"
      by (auto dest: deref_SomeD)
    from a st1 have d1: "deref st1 (bb st1) = Some (a, Start b (now r + blockInterval))"
      by (simp add: deref_def)
    from ob None dec assms(2,3) have
      "(st', rep) = (case add_to_block st1 r t of
                      (s, p) \<Rightarrow> (s\<lparr>trace := trace s @ [Unlock S_bbmu]\<rparr>, p))"
      by (simp add: ServeHTTP_def locked_section_def)
    with add_to_block_live [OF d1, of r t] st1 a dec show ?thesis
      by (auto simp add: deref_def Start_def AddTx_def split: if_splits)
  qed
qed

lemma refs_valid_ServeHTTP:
  assumes "refs_valid st" and "ServeHTTP st r = (st', rep)"
  shows "refs_valid st'"
  using assms
  by (auto simp add: ServeHTTP_def locked_section_def open_block_def add_to_block_def Let_def
      refs_valid_def deref_def
      split: if_splits option.splits prod.splits)

lemma refs_valid_timer_func: "refs_valid st \<Longrightarrow> refs_valid (timer_func st f)"
  by (auto simp add: timer_func_cases refs_valid_def split: option.splits)

lemma ServeHTTP_400_armed:
  assumes "s_bb st = None" and "body_ok r" and "unmarshal_ok r" and "new_tx r = Some t"
      and "ServeHTTP st r = (st', Status 400)"
  shows "timers st' = timers st @ [blockInterval]"
  using assms
  by (auto simp add: ServeHTTP_def locked_section_def open_block_def add_to_block_def Let_def
      split: if_splits option.splits prod.splits)

lemma ServeHTTP_add_fails:
  assumes "body_ok r" "unmarshal_ok r" "new_tx r = Some t" "\<not> add_tx_ok r"
      and "deref st (bb st) = Some (a, b)" and "s_bb st \<noteq> None"
  shows "ServeHTTP st r = (st\<lparr>trace := trace st @ [Lock S_bbmu, Unlock S_bbmu]\<rparr>, Status 400)"
proof -
  let ?st0 = "st\<lparr>trace := trace st @ [Lock S_bbmu]\<rparr>"
  from assms(5) have "deref ?st0 (bb ?st0) = Some (a, b)" by simp
  from add_to_block_live [OF this, of r t] assms(1-4,6) show ?thesis
    by (simp add: ServeHTTP_set)
qed

lemma ServeHTTP_add_succeeds:
  assumes "body_ok r" "unmarshal_ok r" "new_tx r = Some t" "add_tx_ok r"
      and "deref st (bb st) = Some (a, b)" and "s_bb st \<noteq> None"
  shows "ServeHTTP st r =
           (st\<lparr>builders := (builders st)[a := AddTx b t],
               trace := trace st @ [Lock S_bbmu, Unlock S_bbmu]\<rparr>, Status 204)"
proof -
  let ?st0 = "st\<lparr>trace := trace st @ [Lock S_bbmu]\<rparr>"
  from assms(5) have "deref ?st0 (bb ?st0) = Some (a, b)" by simp
  from add_to_block_live [OF this, of r t] assms(1-4,6) show ?thesis
    by (simp add: ServeHTTP_set)
qed

text \<open>Once \<^verbatim>\<open>s.bb\<close> is set and no timer is pending, no event changes either.\<close>

lemma step_stuck:
  assumes "s_bb st \<noteq> None" and "timers st = []"
  shows "s_bb (step st ev) = s_bb st \<and> timers (step st ev) = [] \<and> written (step st ev) = written st
       \<and> header_set (step st ev) = header_set st"
proof (cases ev)
  case (Request r)
  obtain st' rep where s: "ServeHTTP st r = (st', rep)" by (cases "ServeHTTP st r")
  from ServeHTTP_set_frame [OF assms(1) s] s assms(2) Request show ?thesis
    by (simp add: step_def)
next
  case (Fire f)
  with assms show ?thesis by (simp add: step_def)
qed

lemma run_stuck:
  assumes "s_bb st \<noteq> None" and "timers st = []"
  shows "s_bb (run st evs) = s_bb st \<and> timers (run st evs) = [] \<and> written (run st evs) = written st
       \<and> header_set (run st evs) = header_set st"
  using assms
proof (induction evs arbitrary: st)
  case Nil
  then show ?case by (simp add: run_def)
next
  case (Cons ev evs)
  from step_stuck [OF Cons.prems, of ev] have
    a: "s_bb (step st ev) \<noteq> None" "timers (step st ev) = []" using Cons.prems by simp_all
  from Cons.IH [OF a] step_stuck [OF Cons.prems, of ev] show ?case
    by (simp add: run_Cons)
qed

lemma preset_first_request:
  "ServeHTTP preset_state (good_request 1 0) = (open_state, Status 204)"
  by (simp add: ServeHTTP_def locked_section_def open_block_def add_to_block_def deref_def
      preset_state_def nil_state_def good_request_def NewBlockBuilder_def Start_def AddTx_def
      blockInterval_def Let_def open_state_def)

lemma nil_first_request:
  "ServeHTTP nil_state (good_request 1 0)
     = (nil_state\<lparr>s_bb := Some 0, builders := [NewBlockBuilder], header_set := True,
                  trace := [Lock S_bbmu, Unlock S_bbmu]\<rparr>, No_reply)"
  by (simp add: ServeHTTP_def locked_section_def open_block_def deref_def Let_def
      nil_state_def good_request_def)

lemma nil_failed_init:
  "ServeHTTP nil_state ((good_request 1 0)\<lparr>apply_header_ok := False\<rparr>)
     = (failed_init_state, Status 500)"
  by (simp add: ServeHTTP_def locked_section_def open_block_def Let_def
      nil_state_def good_request_def failed_init_state_def)

lemma preset_failed_start:
  "ServeHTTP preset_state ((good_request 1 0)\<lparr>start_ok := False\<rparr>)
     = (failed_start_state, Status 500)"
  by (simp add: ServeHTTP_def locked_section_def open_block_def Let_def deref_def
      preset_state_def nil_state_def good_request_def failed_start_state_def)

text \<open>The scheduled function is its two parts, one after the other.\<close>

lemma timer_func_split:
  "timer_func st f =
     (case timer_seal st f of (st1, go) \<Rightarrow> if go then timer_clear st1 else st1)"
  by (simp add: timer_func_def timer_seal_def timer_clear_def Let_def
      split: option.splits)


section \<open>Requests that do not reach the mutex\<close>

text \<open>
  C10. When the body of the request cannot be read, the reply is status 500 (a server
  error), and the state is the one before the request: no builder is created, no timer
  is armed, no transaction is added, and the trace shows that no mutex was taken.
\<close>

theorem unreadable_body_500:
  assumes "\<not> body_ok r"
  shows "ServeHTTP st r = (st, Status 500)"
  using assms by (simp add: ServeHTTP_def)

theorem unreadable_body_500_witness:
  "\<not> body_ok ((good_request 1 0)\<lparr>body_ok := False\<rparr>)
   \<and> ServeHTTP nil_state ((good_request 1 0)\<lparr>body_ok := False\<rparr>) = (nil_state, Status 500)"
  using unreadable_body_500 [of "(good_request 1 0)\<lparr>body_ok := False\<rparr>" nil_state]
  by (simp add: good_request_def)

text \<open>
  C8. When the body is read but does not decode into a transaction (the protobuf does
  not unmarshal, or the transaction cannot be constructed), the reply is status 400 (a
  client error), and the state is the one before the request: \<^verbatim>\<open>s.bb\<close> is unchanged,
  no builder is created, no timer is armed and no mutex is taken.
\<close>

theorem undecodable_body_400:
  assumes "body_ok r" and "\<not> unmarshal_ok r \<or> new_tx r = None"
  shows "ServeHTTP st r = (st, Status 400)"
  using assms by (auto simp add: ServeHTTP_def)

theorem undecodable_body_400_witness:
  "body_ok ((good_request 1 0)\<lparr>new_tx := None\<rparr>)
   \<and> new_tx ((good_request 1 0)\<lparr>new_tx := None\<rparr>) = None
   \<and> ServeHTTP preset_state ((good_request 1 0)\<lparr>new_tx := None\<rparr>) = (preset_state, Status 400)"
  using undecodable_body_400 [of "(good_request 1 0)\<lparr>new_tx := None\<rparr>" preset_state]
  by (simp add: good_request_def)

section \<open>The scheduled function\<close>

text \<open>
  C4. A block is written to \<^verbatim>\<open>s.w\<close> only after \<^verbatim>\<open>CommitAppliedBlock\<close> has
  accepted it. If \<^verbatim>\<open>Build\<close> or the commit fails, the process stops and nothing is
  written from then on, whatever events follow; when the scheduled function does write,
  both calls have succeeded and the block written is the block just committed; and in
  every run, each block written is among the blocks committed.
\<close>

theorem written_only_after_commit:
  "(\<not> build_ok f \<or> \<not> commit_ok f \<longrightarrow>
      halted (timer_func st f) \<noteq> None
      \<and> (\<forall>evs. written (run (timer_func st f) evs) = written st))
   \<and> (written (timer_func st f) \<noteq> written st \<longrightarrow>
        build_ok f \<and> commit_ok f
        \<and> (\<exists>blk. committed (timer_func st f) = committed st @ [blk]
                 \<and> written (timer_func st f) = written st @ [blk]))
   \<and> (set (written st) \<subseteq> set (committed st) \<longrightarrow>
        (\<forall>evs. set (written (run st evs)) \<subseteq> set (committed (run st evs))))"
proof (intro conjI impI allI)
  assume fail: "\<not> build_ok f \<or> \<not> commit_ok f"
  then show h: "halted (timer_func st f) \<noteq> None"
    by (auto simp add: timer_func_cases split: option.splits)
  from fail have w: "written (timer_func st f) = written st"
    by (auto simp add: timer_func_cases split: option.splits)
  fix evs
  show "written (run (timer_func st f) evs) = written st"
    using run_halted [OF h] w by simp
next
  assume "written (timer_func st f) \<noteq> written st"
  then show "build_ok f" and "commit_ok f"
    and "\<exists>blk. committed (timer_func st f) = committed st @ [blk]
               \<and> written (timer_func st f) = written st @ [blk]"
    by (auto simp add: timer_func_cases split: option.splits if_splits)
next
  fix evs
  assume "set (written st) \<subseteq> set (committed st)"
  then show "set (written (run st evs)) \<subseteq> set (committed (run st evs))"
    by (rule run_subset)
qed

theorem written_only_after_commit_witness:
  "\<not> commit_ok (good_fire\<lparr>commit_ok := False\<rparr>)
   \<and> halted (timer_func preset_state (good_fire\<lparr>commit_ok := False\<rparr>)) \<noteq> None
   \<and> written (run (timer_func preset_state (good_fire\<lparr>commit_ok := False\<rparr>))
               [Request (good_request 1 0), Fire good_fire]) = []
   \<and> written (timer_func preset_state good_fire) \<noteq> written preset_state
   \<and> build_ok good_fire \<and> commit_ok good_fire
   \<and> set (written preset_state) \<subseteq> set (committed preset_state)
   \<and> set (written (run preset_state [Request (good_request 1 0), Fire good_fire]))
       \<subseteq> set (committed (run preset_state [Request (good_request 1 0), Fire good_fire]))"
proof -
  have a: "\<not> build_ok (good_fire\<lparr>commit_ok := False\<rparr>) \<or> \<not> commit_ok (good_fire\<lparr>commit_ok := False\<rparr>)"
    by (simp add: good_fire_def)
  have b: "written (timer_func preset_state good_fire) \<noteq> written preset_state"
    by (simp add: timer_func_cases deref_def preset_state_def nil_state_def good_fire_def)
  have c: "set (written preset_state) \<subseteq> set (committed preset_state)"
    by (simp add: preset_state_def nil_state_def)
  have w: "written preset_state = []"
    by (simp add: preset_state_def nil_state_def)
  have a': "\<not> commit_ok (good_fire\<lparr>commit_ok := False\<rparr>)"
    by (simp add: good_fire_def)
  from a a' b c w
    written_only_after_commit [of "good_fire\<lparr>commit_ok := False\<rparr>" preset_state]
    written_only_after_commit [of good_fire preset_state]
  show ?thesis by simp
qed

section \<open>A block without transactions\<close>

text \<open>
  C9. When the scheduled function runs and \<^verbatim>\<open>Build\<close> and the commit succeed, the
  block is committed and written whatever the number of transactions in the builder:
  there is no test on that number. In particular, when the request that armed the timer
  was answered 400 because \<^verbatim>\<open>AddTx\<close> failed, the block that is committed and written
  has no transaction.
\<close>

theorem empty_block_is_still_written:
  assumes "build_ok f" and "commit_ok f"
  shows "(deref st (bb st) = Some (a, b) \<longrightarrow>
            committed (timer_func st f)
              = committed st @ [\<lparr>transactions = txs b, timestamp_ms = timestampMS b\<rparr>]
            \<and> written (timer_func st f)
              = written st @ [\<lparr>transactions = txs b, timestamp_ms = timestampMS b\<rparr>]
            \<and> halted (timer_func st f) = halted st)
       \<and> (refs_valid st \<and> s_bb st = None \<and> body_ok r \<and> unmarshal_ok r \<and> new_tx r = Some t
            \<and> ServeHTTP st r = (st1, Status 400) \<longrightarrow>
            timers st1 = timers st @ [blockInterval]
            \<and> committed (timer_func st1 f)
              = committed st @ [\<lparr>transactions = [], timestamp_ms = now r + blockInterval\<rparr>]
            \<and> written (timer_func st1 f)
              = written st @ [\<lparr>transactions = [], timestamp_ms = now r + blockInterval\<rparr>])"
proof (intro conjI impI)
  assume d: "deref st (bb st) = Some (a, b)"
  with assms show
    "committed (timer_func st f)
       = committed st @ [\<lparr>transactions = txs b, timestamp_ms = timestampMS b\<rparr>]"
    "written (timer_func st f)
       = written st @ [\<lparr>transactions = txs b, timestamp_ms = timestampMS b\<rparr>]"
    "halted (timer_func st f) = halted st"
    by (simp_all add: timer_func_cases Build_def)
next
  assume h: "refs_valid st \<and> s_bb st = None \<and> body_ok r \<and> unmarshal_ok r \<and> new_tx r = Some t
            \<and> ServeHTTP st r = (st1, Status 400)"
  then have s: "ServeHTTP st r = (st1, Status 400)" and v: "refs_valid st"
    and n: "s_bb st = None" by simp_all
  from h ServeHTTP_400_armed [of st r t st1]
  show t1: "timers st1 = timers st @ [blockInterval]" by simp
  then have ne: "timers st1 \<noteq> timers st" by simp
  from ServeHTTP_opening [OF v n s ne] h obtain a' b' where
    o: "deref st1 (bb st1) = Some (a', b')" "txs b' = []"
       "timestampMS b' = now r + blockInterval"
       "written st1 = written st" "committed st1 = committed st"
    by auto
  with assms show
    "committed (timer_func st1 f)
       = committed st @ [\<lparr>transactions = [], timestamp_ms = now r + blockInterval\<rparr>]"
    "written (timer_func st1 f)
       = written st @ [\<lparr>transactions = [], timestamp_ms = now r + blockInterval\<rparr>]"
    by (simp_all add: timer_func_cases Build_def)
qed

theorem empty_block_is_still_written_witness:
  "build_ok good_fire \<and> commit_ok good_fire
   \<and> deref preset_state (bb preset_state) = Some (0, NewBlockBuilder)
   \<and> txs NewBlockBuilder = []
   \<and> written (timer_func preset_state good_fire) = [\<lparr>transactions = [], timestamp_ms = 0\<rparr>]
   \<and> refs_valid preset_state \<and> s_bb preset_state = None
   \<and> ServeHTTP preset_state ((good_request 1 0)\<lparr>add_tx_ok := False\<rparr>)
       = (fst (ServeHTTP preset_state ((good_request 1 0)\<lparr>add_tx_ok := False\<rparr>)), Status 400)
   \<and> written (timer_func (fst (ServeHTTP preset_state ((good_request 1 0)\<lparr>add_tx_ok := False\<rparr>)))
               good_fire)
       = [\<lparr>transactions = [], timestamp_ms = 5000\<rparr>]"
proof -
  let ?r = "(good_request 1 0)\<lparr>add_tx_ok := False\<rparr>"
  have f: "build_ok good_fire" "commit_ok good_fire" by (simp_all add: good_fire_def)
  have d: "deref preset_state (bb preset_state) = Some (0, NewBlockBuilder)"
    by (simp add: deref_def preset_state_def nil_state_def)
  have v: "refs_valid preset_state" "s_bb preset_state = None" "written preset_state = []"
    by (simp_all add: refs_valid_def preset_state_def nil_state_def)
  have q: "snd (ServeHTTP preset_state ?r) = Status 400"
    by (simp add: ServeHTTP_def locked_section_def open_block_def add_to_block_def deref_def
        preset_state_def nil_state_def good_request_def Let_def)
  then have s: "ServeHTTP preset_state ?r = (fst (ServeHTTP preset_state ?r), Status 400)"
    by (metis prod.collapse)
  have r: "body_ok ?r" "unmarshal_ok ?r" "new_tx ?r = Some (Tx 1)" "now ?r = 0"
    by (simp_all add: good_request_def)
  from empty_block_is_still_written [OF f, of preset_state 0 NewBlockBuilder ?r "Tx 1"
      "fst (ServeHTTP preset_state ?r)"] d v s r
  have "written (timer_func preset_state good_fire) = [\<lparr>transactions = [], timestamp_ms = 0\<rparr>]"
    and "written (timer_func (fst (ServeHTTP preset_state ?r)) good_fire)
         = [\<lparr>transactions = [], timestamp_ms = 5000\<rparr>]"
    by (simp_all add: NewBlockBuilder_def blockInterval_def)
  with f d v(1,2) s show ?thesis by (simp add: NewBlockBuilder_def)
qed

section \<open>A transaction that is refused\<close>

text \<open>
  C6. When \<^verbatim>\<open>AddTx\<close> returns an error, the reply is status 400. If \<^verbatim>\<open>s.bb\<close> was
  set before the request, nothing else changes: both references, the builders and the
  pending timers are as before, and the mutex was taken and released. A later request
  whose \<^verbatim>\<open>AddTx\<close> succeeds is answered 204 and its transaction follows those already
  in the builder; the refused transaction is not among them. If the request is the one
  that found \<^verbatim>\<open>s.bb\<close> nil, \<^verbatim>\<open>s.bb\<close> stays set, the timer stays armed and the
  builder is started and empty.
\<close>

theorem failed_add_leaves_block_open:
  assumes "body_ok r" and "unmarshal_ok r" and "new_tx r = Some t" and "\<not> add_tx_ok r"
      and "deref st (bb st) = Some (a, b)"
  shows "(s_bb st \<noteq> None \<longrightarrow>
            ServeHTTP st r
              = (st\<lparr>trace := trace st @ [Lock S_bbmu, Unlock S_bbmu]\<rparr>, Status 400)
            \<and> (\<forall>r' t'. body_ok r' \<and> unmarshal_ok r' \<and> new_tx r' = Some t' \<and> add_tx_ok r' \<longrightarrow>
                  snd (ServeHTTP (fst (ServeHTTP st r)) r') = Status 204
                  \<and> deref (fst (ServeHTTP (fst (ServeHTTP st r)) r')) (bb st)
                      = Some (a, b\<lparr>txs := txs b @ [t']\<rparr>)))
       \<and> (refs_valid st \<and> s_bb st = None \<and> ServeHTTP st r = (st', Status 400) \<longrightarrow>
            s_bb st' \<noteq> None \<and> timers st' = timers st @ [blockInterval]
            \<and> (\<exists>b'. deref st' (bb st') = Some (a, b') \<and> started b' \<and> txs b' = []))"
proof (intro conjI impI allI)
  assume o: "s_bb st \<noteq> None"
  from ServeHTTP_add_fails [OF assms o]
  show e: "ServeHTTP st r
             = (st\<lparr>trace := trace st @ [Lock S_bbmu, Unlock S_bbmu]\<rparr>, Status 400)" .
  fix r' :: request and t' :: tx
  assume g: "body_ok r' \<and> unmarshal_ok r' \<and> new_tx r' = Some t' \<and> add_tx_ok r'"
  let ?st1 = "st\<lparr>trace := trace st @ [Lock S_bbmu, Unlock S_bbmu]\<rparr>"
  from assms(5) o have d1: "deref ?st1 (bb ?st1) = Some (a, b)" and o1: "s_bb ?st1 \<noteq> None"
    by simp_all
  from g ServeHTTP_add_succeeds [OF _ _ _ _ d1 o1, of r' t']
  have s: "ServeHTTP ?st1 r' =
      (?st1\<lparr>builders := (builders ?st1)[a := AddTx b t'],
             trace := trace ?st1 @ [Lock S_bbmu, Unlock S_bbmu]\<rparr>, Status 204)" by simp
  from e s show "snd (ServeHTTP (fst (ServeHTTP st r)) r') = Status 204" by simp
  from assms(5) have "a < length (builders st)" "bb st = Some a" by (auto dest: deref_SomeD)
  with e s show "deref (fst (ServeHTTP (fst (ServeHTTP st r)) r')) (bb st)
                  = Some (a, b\<lparr>txs := txs b @ [t']\<rparr>)"
    by (simp add: deref_def AddTx_def)
next
  assume h: "refs_valid st \<and> s_bb st = None \<and> ServeHTTP st r = (st', Status 400)"
  then have s: "ServeHTTP st r = (st', Status 400)" and v: "refs_valid st"
    and n: "s_bb st = None" by simp_all
  from ServeHTTP_400_armed [OF n assms(1-3) s]
  show t1: "timers st' = timers st @ [blockInterval]" .
  then have ne: "timers st' \<noteq> timers st" by simp
  from ServeHTTP_opening [OF v n s ne] assms(3) obtain a' b' where
    o: "deref st' (bb st') = Some (a', b')" "txs b' = []" "started b'" "s_bb st' \<noteq> None"
    by auto
  from o(4) show "s_bb st' \<noteq> None" .
  from s n have "bb st' = bb st"
    by (auto simp add: ServeHTTP_def locked_section_def open_block_def add_to_block_def Let_def
        split: if_splits option.splits prod.splits)
  with o(1) assms(5) have "a' = a" by (auto dest!: deref_SomeD)
  with o show "\<exists>b'. deref st' (bb st') = Some (a, b') \<and> started b' \<and> txs b' = []" by auto
qed

theorem failed_add_leaves_block_open_witness:
  "body_ok ((good_request 2 1000)\<lparr>add_tx_ok := False\<rparr>)
   \<and> unmarshal_ok ((good_request 2 1000)\<lparr>add_tx_ok := False\<rparr>)
   \<and> new_tx ((good_request 2 1000)\<lparr>add_tx_ok := False\<rparr>) = Some (Tx 2)
   \<and> \<not> add_tx_ok ((good_request 2 1000)\<lparr>add_tx_ok := False\<rparr>)
   \<and> deref open_state (bb open_state)
       = Some (0, \<lparr>started = True, timestampMS = 5000, txs = [Tx 1]\<rparr>)
   \<and> s_bb open_state \<noteq> None
   \<and> ServeHTTP open_state ((good_request 2 1000)\<lparr>add_tx_ok := False\<rparr>)
       = (open_state\<lparr>trace := trace open_state @ [Lock S_bbmu, Unlock S_bbmu]\<rparr>, Status 400)
   \<and> snd (ServeHTTP (fst (ServeHTTP open_state ((good_request 2 1000)\<lparr>add_tx_ok := False\<rparr>)))
            (good_request 3 3000)) = Status 204
   \<and> deref (fst (ServeHTTP (fst (ServeHTTP open_state
              ((good_request 2 1000)\<lparr>add_tx_ok := False\<rparr>))) (good_request 3 3000)))
        (bb open_state)
       = Some (0, \<lparr>started = True, timestampMS = 5000, txs = [Tx 1, Tx 3]\<rparr>)"
proof -
  let ?r = "(good_request 2 1000)\<lparr>add_tx_ok := False\<rparr>"
  let ?b = "\<lparr>started = True, timestampMS = 5000, txs = [Tx 1]\<rparr>"
  have r: "body_ok ?r" "unmarshal_ok ?r" "new_tx ?r = Some (Tx 2)" "\<not> add_tx_ok ?r"
    by (simp_all add: good_request_def)
  have d: "deref open_state (bb open_state) = Some (0, ?b)"
    by (simp add: deref_def open_state_def)
  have o: "s_bb open_state \<noteq> None" by (simp add: open_state_def)
  have g: "body_ok (good_request 3 3000) \<and> unmarshal_ok (good_request 3 3000)
           \<and> new_tx (good_request 3 3000) = Some (Tx 3) \<and> add_tx_ok (good_request 3 3000)"
    by (simp add: good_request_def)
  from failed_add_leaves_block_open [OF r d] o g
  have "ServeHTTP open_state ?r
          = (open_state\<lparr>trace := trace open_state @ [Lock S_bbmu, Unlock S_bbmu]\<rparr>, Status 400)"
    and "snd (ServeHTTP (fst (ServeHTTP open_state ?r)) (good_request 3 3000)) = Status 204"
    and "deref (fst (ServeHTTP (fst (ServeHTTP open_state ?r)) (good_request 3 3000)))
           (bb open_state) = Some (0, ?b\<lparr>txs := txs ?b @ [Tx 3]\<rparr>)"
    by blast+
  with r d o show ?thesis by simp
qed

section \<open>Where the code departs from its description\<close>

text \<open>
  C5. The code at the failing input. Line 64 assigns \<^verbatim>\<open>s.bb\<close> before the header is
  applied and before \<^verbatim>\<open>Start\<close>; the returns of lines 72 and 79 leave it set. So
  after a request during which \<^verbatim>\<open>ApplyBlockHeader\<close> fails (status 500) \<^verbatim>\<open>s.bb\<close>
  is not nil, and the same holds when \<^verbatim>\<open>Start\<close> fails. No later request enters
  lines 64 to 101 again: the header stays unset and no timer is armed.
\<close>

theorem failed_init_leaves_s_bb_set:
  "ServeHTTP nil_state ((good_request 1 0)\<lparr>apply_header_ok := False\<rparr>)
     = (failed_init_state, Status 500)
   \<and> s_bb failed_init_state = Some 0
   \<and> ServeHTTP preset_state ((good_request 1 0)\<lparr>start_ok := False\<rparr>)
     = (failed_start_state, Status 500)
   \<and> s_bb failed_start_state = Some 1
   \<and> (\<forall>r. header_set (fst (ServeHTTP failed_init_state r)) = False
          \<and> timers (fst (ServeHTTP failed_init_state r)) = []
          \<and> s_bb (fst (ServeHTTP failed_init_state r)) = Some 0)"
proof -
  have a: "s_bb failed_init_state \<noteq> None" "s_bb failed_init_state = Some 0"
    "timers failed_init_state = []" "header_set failed_init_state = False"
    "s_bb failed_start_state = Some 1"
    by (simp_all add: failed_init_state_def failed_start_state_def nil_state_def)
  have 3: "header_set (fst (ServeHTTP failed_init_state r)) = False
          \<and> timers (fst (ServeHTTP failed_init_state r)) = []
          \<and> s_bb (fst (ServeHTTP failed_init_state r)) = Some 0" for r
    using ServeHTTP_set_frame [OF a(1), of r "fst (ServeHTTP failed_init_state r)"
        "snd (ServeHTTP failed_init_state r)"] a
    by simp
  from nil_failed_init preset_failed_start a(2,5) 3 show ?thesis by blast
qed

text \<open>
  C1. The code at the failing input. After a first request during which
  \<^verbatim>\<open>ApplyBlockHeader\<close> or \<^verbatim>\<open>Start\<close> fails, \<^verbatim>\<open>s.bb\<close> is set and no timer is
  pending; whatever requests and firings follow, \<^verbatim>\<open>s.bb\<close> stays set, no timer is
  ever armed and no block is ever written.
\<close>

theorem timer_never_armed_after_failed_init:
  "fst (ServeHTTP nil_state ((good_request 1 0)\<lparr>apply_header_ok := False\<rparr>))
     = failed_init_state
   \<and> fst (ServeHTTP preset_state ((good_request 1 0)\<lparr>start_ok := False\<rparr>))
     = failed_start_state
   \<and> (\<forall>evs. s_bb (run failed_init_state evs) = Some 0
            \<and> timers (run failed_init_state evs) = []
            \<and> written (run failed_init_state evs) = [])
   \<and> (\<forall>evs. s_bb (run failed_start_state evs) = Some 1
            \<and> timers (run failed_start_state evs) = []
            \<and> written (run failed_start_state evs) = [])"
proof -
  have a: "s_bb failed_init_state = Some 0" "timers failed_init_state = []"
    "written failed_init_state = []"
    by (simp_all add: failed_init_state_def nil_state_def)
  have b: "s_bb failed_start_state = Some 1" "timers failed_start_state = []"
    "written failed_start_state = []"
    by (simp_all add: failed_start_state_def preset_state_def nil_state_def)
  from a have a': "s_bb failed_init_state \<noteq> None" by simp
  from b have b': "s_bb failed_start_state \<noteq> None" by simp
  from run_stuck [OF a' a(2)] run_stuck [OF b' b(2)] a b nil_failed_init preset_failed_start
  show ?thesis by simp
qed


text \<open>
  C2. The code at the failing input. The scheduled function never changes \<^verbatim>\<open>s.bb\<close>:
  line 100 assigns the package-level \<^verbatim>\<open>bb\<close>. After one request and the firing of
  its timer, the block is written, the package-level \<^verbatim>\<open>bb\<close> is nil and \<^verbatim>\<open>s.bb\<close>
  still refers to the builder of line 64; the next request finds \<^verbatim>\<open>s.bb\<close> set, calls
  \<^verbatim>\<open>AddTx\<close> through nil and gets no reply.
\<close>

theorem timer_func_keeps_s_bb:
  "s_bb (timer_func st f) = s_bb st
   \<and> ServeHTTP preset_state (good_request 1 0) = (open_state, Status 204)
   \<and> s_bb (run preset_state [Request (good_request 1 0), Fire good_fire]) = Some 1
   \<and> bb (run preset_state [Request (good_request 1 0), Fire good_fire]) = None
   \<and> written (run preset_state [Request (good_request 1 0), Fire good_fire])
       = [\<lparr>transactions = [Tx 1], timestamp_ms = 5000\<rparr>]
   \<and> snd (ServeHTTP (run preset_state [Request (good_request 1 0), Fire good_fire])
            (good_request 2 6000)) = No_reply"
proof -
  have 1: "s_bb (timer_func st f) = s_bb st"
    by (simp add: timer_func_cases split: option.splits)
  have h: "halted preset_state = None" by (simp add: preset_state_def nil_state_def)
  have r: "run preset_state [Request (good_request 1 0), Fire good_fire]
           = open_state\<lparr>timers := [], committed := [\<lparr>transactions = [Tx 1], timestamp_ms = 5000\<rparr>],
               written := [\<lparr>transactions = [Tx 1], timestamp_ms = 5000\<rparr>], bb := None,
               trace := [Lock S_bbmu, Unlock S_bbmu, Lock Pkg_bbmu, Unlock Pkg_bbmu]\<rparr>"
    unfolding run_def foldl.simps step_def [of preset_state] event.case preset_first_request
    using h
    by (simp add: step_def timer_func_cases deref_def good_fire_def Build_def open_state_def)
  have 2: "snd (ServeHTTP (run preset_state [Request (good_request 1 0), Fire good_fire])
            (good_request 2 6000)) = No_reply"
    unfolding r
    by (simp add: ServeHTTP_def locked_section_def add_to_block_def deref_def
        good_request_def open_state_def)
  from 1 2 preset_first_request show ?thesis
    unfolding r by (simp add: open_state_def)
qed

text \<open>
  C7. The code at the failing input. With both references nil, the first request stores
  a fresh builder in \<^verbatim>\<open>s.bb\<close>, applies the header and panics at line 76: no timer is
  armed, no transaction is added, there is no reply. With the package-level \<^verbatim>\<open>bb\<close>
  referring to a builder, the request is answered 204, but the builder that was started
  and received the transaction is that one; the fresh builder in \<^verbatim>\<open>s.bb\<close> is as
  \<^verbatim>\<open>NewBlockBuilder\<close> returned it.
\<close>

theorem new_builder_never_started:
  "ServeHTTP nil_state (good_request 1 0)
     = (nil_state\<lparr>s_bb := Some 0, builders := [NewBlockBuilder], header_set := True,
                  trace := [Lock S_bbmu, Unlock S_bbmu]\<rparr>, No_reply)
   \<and> ServeHTTP preset_state (good_request 1 0) = (open_state, Status 204)
   \<and> deref open_state (s_bb open_state) = Some (1, NewBlockBuilder)
   \<and> deref open_state (bb open_state)
       = Some (0, \<lparr>started = True, timestampMS = 5000, txs = [Tx 1]\<rparr>)"
  using nil_first_request preset_first_request
  by (simp add: deref_def open_state_def)

end
